theory Spec2Isabelle
  imports Main
begin

section \<open>Console and log output\<close>

text \<open>
  The program reports through the module logger and through the \<open>print_*\<close> helpers.
  A report carries the level or helper used and the fixed part of the message (the
  interpolated values and the decorations of the f-strings are left out).
\<close>

datatype report =
    LogDebug string
  | LogInfo string
  | LogWarning string
  | LogError string
  | PrintHeader string
  | PrintStep int
  | PrintSuccess string
  | PrintError string
  | PrintWarning string
  | PrintInfo string
  | PrintHealthStatus string bool
  | PrintSummaryTable

section \<open>Strings\<close>

text \<open>
  A character of \<^typ>\<open>char\<close> stands for the code point of its number, from 0 to 255.
  \<open>str.strip()\<close> removes leading and trailing white space, the characters for which
  \<open>str.isspace\<close> holds: tab, line feed, vertical tab, form feed, carriage return, the
  four separators 28 to 31, the space, the next-line control 133 and the no-break space
  160.
\<close>

definition isspace :: "char \<Rightarrow> bool" where
  "isspace c = (of_char c \<in> {9, 10, 11, 12, 13, 28, 29, 30, 31, 32, 133, 160 :: nat})"

definition strip :: "string \<Rightarrow> string" where
  "strip s = rev (dropWhile isspace (rev (dropWhile isspace s)))"

text \<open>
  \<open>str.lower()\<close>: the upper-case letters among the code points below 256 are 65 to 90
  and 192 to 222 without the multiplication sign 215; the lower-case form of each is 32
  above it. The other characters are kept.
\<close>

definition lower_char :: "char \<Rightarrow> char" where
  "lower_char c =
     (if (65 \<le> (of_char c :: nat) \<and> (of_char c :: nat) \<le> 90) \<or>
         (192 \<le> (of_char c :: nat) \<and> (of_char c :: nat) \<le> 222 \<and> (of_char c :: nat) \<noteq> 215)
      then char_of (of_char c + (32 :: nat)) else c)"

definition lower :: "string \<Rightarrow> string" where
  "lower s = map lower_char s"

text \<open>
  \<open>s.split(sep, 1)\<close>: the list of the text before the first separator and the text
  after it, or the one-element list \<open>[s]\<close> when the separator does not occur.
\<close>

fun split1 :: "char \<Rightarrow> string \<Rightarrow> string list" where
  "split1 sep [] = [[]]"
| "split1 sep (c # cs) =
     (if c = sep then [[], cs]
      else (case split1 sep cs of
              [] \<Rightarrow> [[c]]
            | x # rest \<Rightarrow> (c # x) # rest))"

text \<open>Truthiness of a string, of an optional string and of a list.\<close>

definition truthy_str :: "string \<Rightarrow> bool" where
  "truthy_str s = (s \<noteq> [])"

section \<open>Exceptions\<close>

datatype exn = ValueError | TypeError | OSError

section \<open>Account file\<close>

record account_data =
  email :: string
  password :: string

text \<open>
  One pass of the loop body of \<open>parse_all_accounts\<close> on line \<open>line\<close>: the accounts and
  reports so far are extended. The tuple assignment \<open>email, password = line.split(':', 1)\<close>
  raises \<open>ValueError\<close> when the split does not give two parts.
\<close>

definition accounts_body ::
  "string \<Rightarrow> account_data list \<times> report list \<Rightarrow> exn + (account_data list \<times> report list)" where
  "accounts_body raw st =
     (let line = strip raw; accounts = fst st; out = snd st in
      if truthy_str line \<and> CHR '':'' \<in> set line then
        (case split1 (CHR '':'') line of
           [e, p] \<Rightarrow>
             Inr (accounts @ [\<lparr>email = strip e, password = strip p\<rparr>],
                  out @ [LogDebug ''Parsed account''])
         | _ \<Rightarrow> Inl ValueError)
      else if truthy_str line then
        Inr (accounts, out @ [LogWarning ''Invalid data format on line''])
      else Inr (accounts, out))"

fun accounts_loop ::
  "string list \<Rightarrow> account_data list \<times> report list \<Rightarrow> exn + (account_data list \<times> report list)" where
  "accounts_loop [] st = Inr st"
| "accounts_loop (l # ls) st =
     (case accounts_body l st of
        Inl e \<Rightarrow> Inl e
      | Inr st' \<Rightarrow> accounts_loop ls st')"

text \<open>
  \<open>parse_all_accounts\<close>: the file is \<open>None\<close> when it cannot be opened or read, else its
  lines. Any exception is caught by the outer handler, which logs an error and returns the
  empty list.
\<close>

definition parse_all_accounts :: "string list option \<Rightarrow> account_data list \<times> report list" where
  "parse_all_accounts file =
     (case file of
        None \<Rightarrow> ([], [LogDebug ''Reading data file'', LogError ''Error parsing data file''])
      | Some lines \<Rightarrow>
          (case accounts_loop lines ([], [LogDebug ''Reading data file'']) of
             Inl e \<Rightarrow> ([], [LogDebug ''Reading data file'', LogError ''Error parsing data file''])
           | Inr (accounts, out) \<Rightarrow> (accounts, out @ [LogInfo ''Parsed accounts from data file''])))"

section \<open>Proxy file\<close>

text \<open>
  \<open>urllib.parse.urlparse\<close> belongs to the standard library and is a parameter of the
  model. Of its result only \<open>hostname\<close> and \<open>port\<close> are read: \<open>hostname\<close> is \<open>None\<close>
  or a string, reading \<open>port\<close> gives \<open>None\<close>, an integer, or raises \<open>ValueError\<close>.
  \<open>urlparse\<close> itself may raise \<open>ValueError\<close>.
\<close>

datatype port_attr = PortNone | PortInt int | PortRaises

datatype parse_result =
    UrlRaises
  | ParseResult (hostname: "string option") (port: port_attr)

type_synonym urlparse = "string \<Rightarrow> parse_result"

definition truthy_hostname :: "string option \<Rightarrow> bool" where
  "truthy_hostname h = (case h of None \<Rightarrow> False | Some s \<Rightarrow> truthy_str s)"

text \<open>
  The test \<open>parsed.hostname and parsed.port\<close>: the port is read only when the hostname is
  truthy; an integer is truthy when it is not 0.
\<close>

definition hostname_and_port :: "string option \<Rightarrow> port_attr \<Rightarrow> exn + bool" where
  "hostname_and_port h p =
     (if \<not> truthy_hostname h then Inr False
      else (case p of
              PortNone \<Rightarrow> Inr False
            | PortInt n \<Rightarrow> Inr (n \<noteq> 0)
            | PortRaises \<Rightarrow> Inl ValueError))"

definition proxies_body :: "urlparse \<Rightarrow> string \<Rightarrow> string list \<times> report list \<Rightarrow> string list \<times> report list" where
  "proxies_body up raw st =
     (let line = strip raw; proxies = fst st; out = snd st in
      if truthy_str line then
        (case up line of
           UrlRaises \<Rightarrow> (proxies, out @ [LogWarning ''Error parsing proxy on line''])
         | ParseResult h p \<Rightarrow>
             (case hostname_and_port h p of
                Inl e \<Rightarrow> (proxies, out @ [LogWarning ''Error parsing proxy on line''])
              | Inr True \<Rightarrow> (proxies @ [line], out @ [LogDebug ''Parsed proxy''])
              | Inr False \<Rightarrow> (proxies, out @ [LogWarning ''Invalid proxy format on line''])))
      else (proxies, out))"

fun proxies_loop :: "urlparse \<Rightarrow> string list \<Rightarrow> string list \<times> report list \<Rightarrow> string list \<times> report list" where
  "proxies_loop up [] st = st"
| "proxies_loop up (l # ls) st = proxies_loop up ls (proxies_body up l st)"

definition parse_all_proxies :: "urlparse \<Rightarrow> string list option \<Rightarrow> string list \<times> report list" where
  "parse_all_proxies up file =
     (case file of
        None \<Rightarrow> ([], [LogDebug ''Reading proxy file'', LogError ''Error parsing proxy file''])
      | Some lines \<Rightarrow>
          (case proxies_loop up lines ([], [LogDebug ''Reading proxy file'']) of
             (proxies, out) \<Rightarrow> (proxies, out @ [LogInfo ''Parsed proxies from proxy file''])))"

section \<open>One account: the automation object\<close>

text \<open>
  The fields of \<open>ChromeProxyAutomation\<close> that the control flow reads. The browser driver
  and the temporary profile are external resources; of them only presence is kept.
\<close>

record automation =
  account_id :: int
  driver :: bool
  temp_profile_path :: bool
  proxy_data :: "(string option \<times> port_attr) option"
  proxy_line :: "string option"
  gradient_data :: "account_data option"
  health_monitoring_active :: bool
  setup_complete :: bool
  was_good_before :: bool
  retry_count :: int
  max_retries :: int
  consecutive_disconnects :: int
  max_consecutive_disconnects :: int

definition ChromeProxyAutomation ::
  "int \<Rightarrow> account_data option \<Rightarrow> string option \<Rightarrow> automation" where
  "ChromeProxyAutomation aid acc pl =
     \<lparr>account_id = aid, driver = False, temp_profile_path = False, proxy_data = None,
      proxy_line = pl, gradient_data = acc, health_monitoring_active = False,
      setup_complete = False, was_good_before = False, retry_count = 0, max_retries = 3,
      consecutive_disconnects = 0, max_consecutive_disconnects = 3\<rparr>"

subsection \<open>The setup pipeline\<close>

datatype stage =
    ParseProxyData
  | CreateTempProfile
  | StartChrome
  | SetupProxy
  | ConnectToProxy
  | SetupGradientExtension

text \<open>
  A trace records, in order, the calls of the stage methods and what is printed.
\<close>

datatype item = Call stage | Out report

text \<open>
  \<open>parse_proxy_data\<close> fails exactly when \<open>urlparse\<close> or the reading of the port raises.
\<close>

definition parse_proxy_data :: "urlparse \<Rightarrow> string \<Rightarrow> (string option \<times> port_attr) option" where
  "parse_proxy_data up pl =
     (case up pl of
        UrlRaises \<Rightarrow> None
      | ParseResult h p \<Rightarrow> (case p of PortRaises \<Rightarrow> None | _ \<Rightarrow> Some (h, p)))"

text \<open>
  The other five stage methods drive the browser. Each catches every exception and
  returns a truth value, which the environment supplies.
\<close>

record stage_results =
  create_temp_profile_ret :: bool
  start_chrome_ret :: bool
  setup_proxy_ret :: bool
  connect_to_proxy_ret :: bool
  setup_gradient_extension_ret :: bool

definition stage1 :: "urlparse \<Rightarrow> automation \<Rightarrow> bool \<times> automation \<times> item list" where
  "stage1 up a =
     (case proxy_line a of
        None \<Rightarrow> (False, a, [Out (PrintStep 1), Out (PrintError ''No proxy assigned to this account'')])
      | Some pl \<Rightarrow>
          if \<not> truthy_str pl
          then (False, a, [Out (PrintStep 1), Out (PrintError ''No proxy assigned to this account'')])
          else (case parse_proxy_data up pl of
                  None \<Rightarrow>
                    (False, a,
                     [Out (PrintStep 1), Call ParseProxyData, Out (LogDebug ''Parsing proxy line''),
                      Out (LogError ''Error parsing proxy data''),
                      Out (PrintError ''Failed to parse proxy data'')])
                | Some pd \<Rightarrow>
                    (True, a\<lparr>proxy_data := Some pd\<rparr>,
                     [Out (PrintStep 1), Call ParseProxyData, Out (LogDebug ''Parsing proxy line''),
                      Out (LogInfo ''Parsed proxy data''),
                      Out (PrintInfo ''Proxy''), Out (PrintSuccess ''Proxy configuration loaded'')])))"

definition stages_4_to_6 :: "stage_results \<Rightarrow> automation \<Rightarrow> bool \<times> automation \<times> item list" where
  "stages_4_to_6 r a =
     (let t4 = [Out (PrintStep 4), Call SetupProxy] @
               (if \<not> setup_proxy_ret r
                then [Out (PrintWarning ''Failed to setup proxy, continuing without proxy'')]
                else [Out (PrintSuccess ''Proxy settings configured'')]);
          t5 = [Out (PrintStep 5), Call ConnectToProxy] @
               (if \<not> connect_to_proxy_ret r
                then [Out (PrintWarning ''Failed to connect to proxy, continuing without connection'')]
                else [Out (PrintSuccess ''Connected to proxy server'')]);
          t6 = [Out (PrintStep 6), Call SetupGradientExtension]
      in if \<not> setup_gradient_extension_ret r
         then (False, a, t4 @ t5 @ t6 @ [Out (PrintError ''Failed to setup gradient extension'')])
         else (True, a\<lparr>setup_complete := True\<rparr>,
               t4 @ t5 @ t6 @ [Out (PrintSuccess ''Gradient extension configured successfully'')]))"

definition run_account_setup_internal ::
  "urlparse \<Rightarrow> stage_results \<Rightarrow> automation \<Rightarrow> bool \<times> automation \<times> item list" where
  "run_account_setup_internal up r a =
     (case stage1 up a of
        (False, a1, t1) \<Rightarrow> (False, a1, t1)
      | (True, a1, t1) \<Rightarrow>
          if \<not> create_temp_profile_ret r
          then (False, a1,
                t1 @ [Out (PrintStep 2), Call CreateTempProfile,
                      Out (PrintError ''Failed to create temporary profile'')])
          else
            (let a2 = a1\<lparr>temp_profile_path := True\<rparr>;
                 t2 = t1 @ [Out (PrintStep 2), Call CreateTempProfile,
                            Out (PrintSuccess ''Temporary profile created'')]
             in if \<not> start_chrome_ret r
                then (False, a2,
                      t2 @ [Out (PrintStep 3), Call StartChrome, Out (PrintError ''Failed to start Chrome'')])
                else
                  (let a3 = a2\<lparr>driver := True\<rparr>;
                       t3 = t2 @ [Out (PrintStep 3), Call StartChrome,
                                  Out (PrintSuccess ''Chrome browser started in headless mode'')]
                   in (case stages_4_to_6 r a3 of
                         (ok, a6, t6) \<Rightarrow> (ok, a6, t3 @ t6)))))"

text \<open>
  \<open>run_account_setup\<close>: the third component tells whether the health monitoring thread
  was started. Reading \<open>self.gradient_data['email']\<close> raises when no account data was
  given; the handler then prints an error and returns \<open>False\<close>.
\<close>

definition run_account_setup ::
  "urlparse \<Rightarrow> stage_results \<Rightarrow> automation \<Rightarrow> bool \<times> automation \<times> bool \<times> item list" where
  "run_account_setup up r a =
     (case gradient_data a of
        None \<Rightarrow> (False, a, False, [Out (PrintError ''Unexpected error during setup'')])
      | Some acc \<Rightarrow>
          (case run_account_setup_internal up r a of
             (True, a', t) \<Rightarrow>
               (True, a', True, Out (PrintHeader ''ACCOUNT'') # t @ [Out (PrintSuccess ''Setup completed'')])
           | (False, a', t) \<Rightarrow> (False, a', False, Out (PrintHeader ''ACCOUNT'') # t)))"

subsection \<open>Health monitoring\<close>

text \<open>
  \<open>get_extension_health\<close> looks the health element up on the page: its text, or
  \<open>Unknown\<close> when the element is absent, or \<open>Error\<close> on any other exception.
\<close>

datatype find_result = ElementText string | NoSuchElementException | OtherException

definition get_extension_health :: "find_result \<Rightarrow> string" where
  "get_extension_health fr =
     (case fr of
        ElementText t \<Rightarrow> t
      | NoSuchElementException \<Rightarrow> ''Unknown''
      | OtherException \<Rightarrow> ''Error'')"

definition is_good :: "string \<Rightarrow> bool" where
  "is_good health_status = (lower health_status = ''good'')"

text \<open>The status tracking of one health check.\<close>

definition track_status :: "bool \<Rightarrow> automation \<Rightarrow> automation" where
  "track_status good a =
     (if good then a\<lparr>was_good_before := True, consecutive_disconnects := 0\<rparr>
      else a\<lparr>consecutive_disconnects := consecutive_disconnects a + 1\<rparr>)"

text \<open>The condition under which the monitoring loop initiates a retry.\<close>

definition retry_condition :: "bool \<Rightarrow> automation \<Rightarrow> bool" where
  "retry_condition good a =
     (was_good_before a \<and> \<not> good \<and>
      consecutive_disconnects a \<ge> max_consecutive_disconnects a \<and>
      retry_count a < max_retries a)"

definition cleanup_for_retry :: "automation \<Rightarrow> automation" where
  "cleanup_for_retry a =
     a\<lparr>health_monitoring_active := False, driver := False, temp_profile_path := False,
       proxy_data := None\<rparr>"

definition initiate_retry :: "automation \<Rightarrow> automation" where
  "initiate_retry a =
     (let a1 = a\<lparr>retry_count := retry_count a + 1\<rparr>;
          a2 = a1\<lparr>health_monitoring_active := False\<rparr>;
          a3 = cleanup_for_retry a2
      in a3\<lparr>consecutive_disconnects := 0, setup_complete := False\<rparr>)"

text \<open>
  One pass of the monitoring loop. The page refresh may raise, which the handler inside
  the loop reports before the loop goes on. The second component tells whether a retry was
  initiated, upon which the loop is left.
\<close>

datatype poll = RefreshRaises | Page find_result

definition monitor_iteration :: "poll \<Rightarrow> automation \<Rightarrow> automation \<times> bool \<times> report list" where
  "monitor_iteration p a =
     (case p of
        RefreshRaises \<Rightarrow> (a, False, [PrintError ''Health check error''])
      | Page fr \<Rightarrow>
          (let health_status = get_extension_health fr;
               good = is_good health_status;
               a1 = track_status good a
           in if retry_condition good a1
              then (initiate_retry a1, True,
                    [PrintHealthStatus health_status good,
                     PrintWarning ''Account was good but now disconnected. Initiating retry''])
              else (a1, False, [PrintHealthStatus health_status good])))"

text \<open>
  \<open>retry_setup\<close> runs in the thread started by \<open>initiate_retry\<close>; the second component
  tells whether it started the health monitoring thread again.
\<close>

definition retry_setup ::
  "urlparse \<Rightarrow> stage_results \<Rightarrow> automation \<Rightarrow> automation \<times> bool \<times> item list" where
  "retry_setup up r a =
     (case gradient_data a of
        None \<Rightarrow> (a, False, [Out (PrintError ''Error during retry setup'')])
      | Some acc \<Rightarrow>
          (case run_account_setup_internal up r a of
             (True, a', t) \<Rightarrow>
               (a', True, Out (PrintHeader ''RETRY'') # t @ [Out (PrintSuccess ''Retry successful'')])
           | (False, a', t) \<Rightarrow>
               (a', False,
                Out (PrintHeader ''RETRY'') # t @
                [Out (PrintError ''Retry failed''),
                 (if retry_count a' < max_retries a'
                  then Out (PrintInfo ''Will attempt retry if disconnected again'')
                  else Out (PrintError ''Max retries reached. Account disabled''))])))"

subsection \<open>The life of one worker\<close>

text \<open>
  A worker's code runs in one thread at a time: the pool thread that performs the first
  setup, then the monitoring thread, then (after \<open>initiate_retry\<close>) the retry thread,
  which on success starts a monitoring thread again. \<open>activity\<close> names the thread that
  is to run next; the environment supplies, as events, the outcomes of the browser stages
  of a setup and the pages seen by the health checks.
\<close>

datatype activity = FirstSetup | MonitorLoop | RetryThread | NoThread

datatype event = Setup stage_results | Poll poll

type_synonym worker = "activity \<times> automation"

fun worker_step :: "urlparse \<Rightarrow> worker \<Rightarrow> event \<Rightarrow> worker" where
  "worker_step up (FirstSetup, a) (Setup r) =
     (case run_account_setup up r a of
        (ok, a', started, t) \<Rightarrow>
          if started then (MonitorLoop, a'\<lparr>health_monitoring_active := True\<rparr>)
          else (NoThread, a'))"
| "worker_step up (MonitorLoop, a) (Poll p) =
     (if \<not> health_monitoring_active a then (NoThread, a)
      else (case monitor_iteration p a of
              (a', retrying, t) \<Rightarrow>
                if retrying then (RetryThread, a'\<lparr>health_monitoring_active := False\<rparr>)
                else (MonitorLoop, a')))"
| "worker_step up (RetryThread, a) (Setup r) =
     (case retry_setup up r a of
        (a', started, t) \<Rightarrow>
          if started then (MonitorLoop, a'\<lparr>health_monitoring_active := True\<rparr>)
          else (NoThread, a'))"
| "worker_step up w e = w"

definition worker_run :: "urlparse \<Rightarrow> worker \<Rightarrow> event list \<Rightarrow> worker" where
  "worker_run up w es = foldl (worker_step up) w es"

section \<open>The fleet\<close>

record manager =
  active_automations :: "automation list"
  setup_delay :: int

definition MultiAccountManager :: manager where
  "MultiAccountManager = \<lparr>active_automations = [], setup_delay = 30\<rparr>"

text \<open>
  The launch loop over \<open>enumerate(accounts_data, 1)\<close>: every account gets an automation
  object with the proxy of the same position, and \<open>setup_account_with_delay\<close> is submitted
  to the pool with the automation and the index \<open>i - 1\<close>.
\<close>

fun launch_loop :: "string list \<Rightarrow> nat \<Rightarrow> account_data list \<Rightarrow> (automation \<times> int) list" where
  "launch_loop proxies i [] = []"
| "launch_loop proxies i (acc # accs) =
     (ChromeProxyAutomation (int i) (Some acc)
        (if i - 1 < length proxies then Some (proxies ! (i - 1)) else None),
      int i - 1) # launch_loop proxies (Suc i) accs"

text \<open>
  The time \<open>setup_account_with_delay\<close> sleeps before it runs the account setup.
\<close>

definition delay_time :: "manager \<Rightarrow> int \<Rightarrow> int" where
  "delay_time m account_index =
     (if account_index > 0 then account_index * setup_delay m else 0)"

text \<open>
  \<open>setup_account_with_delay\<close>: the first component is the time slept before the account
  setup is run, the rest is the outcome of \<open>run_account_setup\<close>.
\<close>

definition setup_account_with_delay ::
  "urlparse \<Rightarrow> manager \<Rightarrow> stage_results \<Rightarrow> automation \<Rightarrow> int
     \<Rightarrow> int \<times> bool \<times> automation \<times> bool \<times> item list" where
  "setup_account_with_delay up m r automation account_index =
     (delay_time m account_index,
      (case run_account_setup up r automation of
         (True, a', started, t) \<Rightarrow>
           (True, a', started, t @ [Out (PrintSuccess ''Account deployment successful'')])
       | (False, a', started, t) \<Rightarrow>
           (False, a', started, t @ [Out (PrintError ''Account deployment failed'')])))"

text \<open>
  \<open>run_all_accounts\<close> up to the submission of the workers: \<open>launch_returned\<close> is the value
  returned when the method returns before the launch, \<open>launch_submitted\<close> the calls
  submitted to the pool.
\<close>

record launch =
  launch_returned :: "bool option"
  launch_submitted :: "(automation \<times> int) list"
  launch_out :: "report list"

definition run_all_accounts ::
  "urlparse \<Rightarrow> string list option \<Rightarrow> string list option \<Rightarrow> manager \<Rightarrow> launch" where
  "run_all_accounts up data_file proxy_file m =
     (let head = [PrintHeader ''MULTI-ACCOUNT CHROME PROXY AUTOMATION'',
                  PrintInfo ''Initializing automated setup for multiple accounts''];
          accounts_data = fst (parse_all_accounts data_file);
          out1 = head @ snd (parse_all_accounts data_file)
      in if accounts_data = [] then
           \<lparr>launch_returned = Some False, launch_submitted = [],
            launch_out = out1 @ [PrintError ''No valid accounts found in data.txt'']\<rparr>
         else
           (let proxies_data = fst (parse_all_proxies up proxy_file);
                out2 = out1 @ snd (parse_all_proxies up proxy_file)
            in if proxies_data = [] then
                 \<lparr>launch_returned = Some False, launch_submitted = [],
                  launch_out = out2 @ [PrintError ''No valid proxies found in proxy.txt'']\<rparr>
               else if length proxies_data < length accounts_data then
                 \<lparr>launch_returned = Some False, launch_submitted = [],
                  launch_out = out2 @ [PrintError ''Insufficient proxies'',
                                       PrintInfo ''Each account requires its own proxy'']\<rparr>
               else
                 \<lparr>launch_returned = None,
                  launch_submitted = launch_loop proxies_data 1 accounts_data,
                  launch_out = out2 @ [PrintSummaryTable]\<rparr>))"

text \<open>
  The script body creates the manager and evaluates \<open>manager.run_all_accounts()\<close> as an
  expression statement: the returned value is dropped and the interpreter ends with exit
  status 0.
\<close>

definition main_exit_status :: "bool option \<Rightarrow> int" where
  "main_exit_status returned = 0"

section \<open>Notions of the specification\<close>

text \<open>
  The retry policy as the specification words it: a pure function of the five values.
\<close>

definition shouldRetry :: "bool \<Rightarrow> int \<Rightarrow> int \<Rightarrow> int \<Rightarrow> int \<Rightarrow> bool" where
  "shouldRetry wasEverHealthy consecutiveUnhealthyChecks unhealthyThreshold retryCount maxRetries =
     (wasEverHealthy \<and> consecutiveUnhealthyChecks \<ge> unhealthyThreshold \<and> retryCount < maxRetries)"

definition shouldRetry_of :: "automation \<Rightarrow> bool" where
  "shouldRetry_of a =
     shouldRetry (was_good_before a) (consecutive_disconnects a) (max_consecutive_disconnects a)
       (retry_count a) (max_retries a)"





text \<open>An event is healthy when it is a health check whose label is classified as good.\<close>

definition healthy_event :: "event \<Rightarrow> bool" where
  "healthy_event e = (case e of Poll (Page fr) \<Rightarrow> is_good (get_extension_health fr) | _ \<Rightarrow> False)"

text \<open>
  The state of a worker that has never seen a good health label: it has not retried and
  no retry thread is pending.
\<close>

definition never_good :: "worker \<Rightarrow> bool" where
  "never_good w = (\<not> was_good_before (snd w) \<and> retry_count (snd w) = 0 \<and> fst w \<noteq> RetryThread)"

text \<open>The stage methods called in a trace, in order.\<close>

fun calls :: "item list \<Rightarrow> stage list" where
  "calls [] = []"
| "calls (Call s # t) = s # calls t"
| "calls (Out r # t) = calls t"

definition pipeline_order :: "stage list" where
  "pipeline_order =
     [ParseProxyData, CreateTempProfile, StartChrome, SetupProxy, ConnectToProxy,
      SetupGradientExtension]"

text \<open>
  A stripped proxy line passes the validation when \<open>urlparse\<close> gives a hostname that is
  not empty and a port that is an integer other than 0.
\<close>

definition accepted :: "urlparse \<Rightarrow> string \<Rightarrow> bool" where
  "accepted up line =
     (case up line of
        UrlRaises \<Rightarrow> False
      | ParseResult h p \<Rightarrow>
          (case h of
             None \<Rightarrow> False
           | Some s \<Rightarrow> s \<noteq> [] \<and> (case p of PortInt n \<Rightarrow> n \<noteq> 0 | _ \<Rightarrow> False)))"

text \<open>
  The account of a stripped line that holds a colon: the text before the first colon and
  the text after it, both stripped. The reports of a stripped account line.
\<close>

definition account_of :: "string \<Rightarrow> account_data" where
  "account_of line =
     \<lparr>email = strip (takeWhile (\<lambda>c. c \<noteq> CHR '':'') line),
      password = strip (tl (dropWhile (\<lambda>c. c \<noteq> CHR '':'') line))\<rparr>"

definition account_report :: "string \<Rightarrow> report list" where
  "account_report line =
     (if line = [] then []
      else if CHR '':'' \<in> set line then [LogDebug ''Parsed account'']
      else [LogWarning ''Invalid data format on line''])"

section \<open>Concrete inputs\<close>

text \<open>
  What \<open>urlparse\<close> gives on a few lines: two well-formed proxies, a proxy with port 0, a
  proxy whose port is not a number (reading the port raises), and anything else taken as a
  line without network location.
\<close>

definition urlparse_example :: urlparse where
  "urlparse_example s =
     (if s = ''http://u1:pw1@h1:1000'' then ParseResult (Some ''h1'') (PortInt 1000)
      else if s = ''http://u2:pw2@h2:2000'' then ParseResult (Some ''h2'') (PortInt 2000)
      else if s = ''http://h:0'' then ParseResult (Some ''h'') (PortInt 0)
      else if s = ''http://h:x'' then ParseResult (Some ''h'') PortRaises
      else ParseResult None PortNone)"

definition all_ok :: stage_results where
  "all_ok =
     \<lparr>create_temp_profile_ret = True, start_chrome_ret = True, setup_proxy_ret = True,
      connect_to_proxy_ret = True, setup_gradient_extension_ret = True\<rparr>"

definition account_a :: account_data where
  "account_a = \<lparr>email = ''a@x.com'', password = ''p1''\<rparr>"

definition automation_a :: automation where
  "automation_a = ChromeProxyAutomation 1 (Some account_a) (Some ''http://u1:pw1@h1:1000'')"

text \<open>An automation whose proxy line has a port that is not a number.\<close>

definition automation_bad_port :: automation where
  "automation_bad_port = ChromeProxyAutomation 1 (Some account_a) (Some ''http://h:x'')"

text \<open>A worker that is being monitored, was good before, and has used its three retries.\<close>

definition exhausted_automation :: automation where
  "exhausted_automation =
     automation_a\<lparr>health_monitoring_active := True, setup_complete := True,
       was_good_before := True, retry_count := 3, consecutive_disconnects := 2\<rparr>"

text \<open>A worker that was good and has seen two bad labels in a row.\<close>

definition degrading_automation :: automation where
  "degrading_automation =
     automation_a\<lparr>health_monitoring_active := True, setup_complete := True,
       was_good_before := True, consecutive_disconnects := 2\<rparr>"

text \<open>An automation whose threshold of consecutive bad checks is 0.\<close>

definition threshold0_automation :: automation where
  "threshold0_automation = automation_a\<lparr>max_consecutive_disconnects := 0\<rparr>"

text \<open>A successful setup followed by health checks none of which is good.\<close>

definition never_healthy_events :: "event list" where
  "never_healthy_events =
     [Setup all_ok, Poll (Page (ElementText ''Bad'')), Poll (Page NoSuchElementException),
      Poll (Page OtherException), Poll RefreshRaises, Poll (Page (ElementText ''Bad''))]"

text \<open>Outcomes of the browser stages: both proxy stages fail; Chrome does not start; the
  login into the extension fails.\<close>

definition best_effort_fail :: stage_results where
  "best_effort_fail = all_ok\<lparr>setup_proxy_ret := False, connect_to_proxy_ret := False\<rparr>"

definition chrome_fails :: stage_results where
  "chrome_fails = all_ok\<lparr>start_chrome_ret := False\<rparr>"

definition auth_fails :: stage_results where
  "auth_fails = all_ok\<lparr>setup_gradient_extension_ret := False\<rparr>"

text \<open>The files of the scenarios: two accounts, two proxies, one proxy.\<close>

definition data_two :: "string list option" where
  "data_two = Some [''a@x.com:p1'', ''b@x.com:p2'']"

definition proxies_two :: "string list option" where
  "proxies_two = Some [''http://u1:pw1@h1:1000'', ''http://u2:pw2@h2:2000'']"

definition proxies_one :: "string list option" where
  "proxies_one = Some [''http://u1:pw1@h1:1000'']"

section \<open>Properties\<close>

subsection \<open>Health classification\<close>
















subsection \<open>The retry decision\<close>

text \<open>
  C1 (as amended). The condition tested by the monitoring loop is the policy of the
  specification together with the requirement that the current check is bad. When the
  threshold is at least 1 (the constructor sets 3), the condition tested after the status
  tracking of a check agrees with the policy of the specification on the tracked state.
\<close>

theorem retry_condition_shouldRetry:
  "retry_condition good a = (shouldRetry_of a \<and> \<not> good) \<and>
   (1 \<le> max_consecutive_disconnects a \<longrightarrow>
      retry_condition good (track_status good a) = shouldRetry_of (track_status good a))"
  by (auto simp: retry_condition_def shouldRetry_of_def shouldRetry_def track_status_def)

theorem retry_condition_shouldRetry_witness:
  "1 \<le> max_consecutive_disconnects degrading_automation \<and>
   retry_condition False (track_status False degrading_automation) \<and>
   shouldRetry_of (track_status False degrading_automation)"
proof -
  have h: "1 \<le> max_consecutive_disconnects degrading_automation"
    by (simp add: degrading_automation_def automation_a_def ChromeProxyAutomation_def)
  have s: "shouldRetry_of (track_status False degrading_automation)"
    by (simp add: shouldRetry_of_def shouldRetry_def track_status_def degrading_automation_def
          automation_a_def ChromeProxyAutomation_def)
  from h s retry_condition_shouldRetry[of False degrading_automation]
  show ?thesis by simp
qed

text \<open>
  With threshold 0, after a good check of a fresh worker the policy of the specification
  holds of the tracked state, and the loop does not retry.
\<close>

theorem retry_condition_counterexample:
  "shouldRetry (was_good_before (track_status True threshold0_automation))
     (consecutive_disconnects (track_status True threshold0_automation))
     (max_consecutive_disconnects (track_status True threshold0_automation))
     (retry_count (track_status True threshold0_automation))
     (max_retries (track_status True threshold0_automation)) \<and>
   \<not> retry_condition True (track_status True threshold0_automation)"
  by (simp add: shouldRetry_def retry_condition_def track_status_def threshold0_automation_def
        automation_a_def ChromeProxyAutomation_def)

subsection \<open>The worker: retry budget and monitoring\<close>

lemma stage1_fields:
  "stage1 up a = (ok, a', t) \<Longrightarrow>
     retry_count a' = retry_count a \<and> max_retries a' = max_retries a \<and>
     was_good_before a' = was_good_before a \<and> consecutive_disconnects a' = consecutive_disconnects a \<and>
     max_consecutive_disconnects a' = max_consecutive_disconnects a \<and>
     health_monitoring_active a' = health_monitoring_active a \<and> gradient_data a' = gradient_data a"
  by (auto simp: stage1_def split: option.splits if_splits)

lemma stages_4_to_6_fields:
  "stages_4_to_6 r a = (ok, a', t) \<Longrightarrow>
     retry_count a' = retry_count a \<and> max_retries a' = max_retries a \<and>
     was_good_before a' = was_good_before a \<and> consecutive_disconnects a' = consecutive_disconnects a \<and>
     max_consecutive_disconnects a' = max_consecutive_disconnects a \<and>
     health_monitoring_active a' = health_monitoring_active a \<and> gradient_data a' = gradient_data a"
  by (auto simp: stages_4_to_6_def Let_def split: if_splits)

lemma internal_fields:
  assumes "run_account_setup_internal up r a = (ok, a', t)"
  shows "retry_count a' = retry_count a \<and> max_retries a' = max_retries a \<and>
     was_good_before a' = was_good_before a \<and> consecutive_disconnects a' = consecutive_disconnects a \<and>
     max_consecutive_disconnects a' = max_consecutive_disconnects a \<and>
     health_monitoring_active a' = health_monitoring_active a \<and> gradient_data a' = gradient_data a"
proof -
  obtain ok1 a1 t1 where s1: "stage1 up a = (ok1, a1, t1)" by (cases "stage1 up a") auto
  note f1 = stage1_fields[OF s1]
  show ?thesis
  proof (cases "ok1 \<and> create_temp_profile_ret r \<and> start_chrome_ret r")
    case False
    with assms s1 f1 show ?thesis
      by (cases ok1) (auto simp: run_account_setup_internal_def Let_def split: if_splits)
  next
    case True
    obtain ok6 a6 t6 where s6: "stages_4_to_6 r (a1\<lparr>temp_profile_path := True, driver := True\<rparr>) = (ok6, a6, t6)"
      by (cases "stages_4_to_6 r (a1\<lparr>temp_profile_path := True, driver := True\<rparr>)") auto
    note f6 = stages_4_to_6_fields[OF s6]
    from True assms s1 s6 have "a' = a6"
      by (auto simp: run_account_setup_internal_def Let_def)
    with f1 f6 show ?thesis by simp
  qed
qed


lemma run_account_setup_fields:
  assumes "run_account_setup up r a = (ok, a', started, t)"
  shows "retry_count a' = retry_count a \<and> max_retries a' = max_retries a \<and>
     was_good_before a' = was_good_before a \<and> health_monitoring_active a' = health_monitoring_active a \<and>
     started = ok \<and> ok = (gradient_data a \<noteq> None \<and> fst (run_account_setup_internal up r a))"
proof (cases "gradient_data a")
  case None
  with assms show ?thesis by (simp add: run_account_setup_def)
next
  case (Some acc)
  obtain ok' a'' t' where i: "run_account_setup_internal up r a = (ok', a'', t')"
    by (cases "run_account_setup_internal up r a") auto
  from Some assms i have "a' = a''" "started = ok'" "ok = ok'"
    by (cases ok'; simp add: run_account_setup_def)+
  with internal_fields[OF i] Some i show ?thesis by simp
qed

lemma retry_setup_fields:
  assumes "retry_setup up r a = (a', started, t)"
  shows "retry_count a' = retry_count a \<and> max_retries a' = max_retries a \<and>
     was_good_before a' = was_good_before a \<and> health_monitoring_active a' = health_monitoring_active a"
proof (cases "gradient_data a")
  case None
  with assms show ?thesis by (simp add: retry_setup_def)
next
  case (Some acc)
  obtain ok' a'' t' where i: "run_account_setup_internal up r a = (ok', a'', t')"
    by (cases "run_account_setup_internal up r a") auto
  from Some assms i have "a' = a''"
    by (cases ok'; simp add: retry_setup_def)
  with internal_fields[OF i] show ?thesis by simp
qed

lemma monitor_iteration_budget:
  assumes "monitor_iteration p a = (a', retrying, t)"
  shows "max_retries a' = max_retries a \<and>
     (retrying \<longrightarrow> retry_count a < max_retries a \<and> retry_count a' = retry_count a + 1 \<and>
        was_good_before a') \<and>
     (\<not> retrying \<longrightarrow> retry_count a' = retry_count a)"
  using assms
  by (cases p)
     (auto simp: monitor_iteration_def Let_def track_status_def retry_condition_def
        initiate_retry_def cleanup_for_retry_def split: if_splits)

lemma monitor_iteration_unhealthy:
  assumes "monitor_iteration p a = (a', retrying, t)" and "\<not> healthy_event (Poll p)"
  shows "was_good_before a' = was_good_before a"
  using assms
  by (cases p)
     (auto simp: monitor_iteration_def Let_def track_status_def retry_condition_def
        initiate_retry_def cleanup_for_retry_def healthy_event_def split: if_splits)

lemma worker_step_budget:
  assumes "retry_count (snd w) \<le> max_retries (snd w)"
  shows "retry_count (snd (worker_step up w e)) \<le> max_retries (snd (worker_step up w e))"
proof (cases w)
  case (Pair c a)
  show ?thesis
  proof (cases c)
    case FirstSetup
    show ?thesis
    proof (cases e)
      case (Setup r)
      obtain ok a' started t where s: "run_account_setup up r a = (ok, a', started, t)"
        by (cases "run_account_setup up r a") auto
      from run_account_setup_fields[OF s] assms Pair FirstSetup Setup s show ?thesis by simp
    next
      case (Poll p)
      with assms Pair FirstSetup show ?thesis by simp
    qed
  next
    case MonitorLoop
    show ?thesis
    proof (cases e)
      case (Setup r)
      with assms Pair MonitorLoop show ?thesis by simp
    next
      case (Poll p)
      obtain a' retrying t where m: "monitor_iteration p a = (a', retrying, t)"
        by (cases "monitor_iteration p a") auto
      from monitor_iteration_budget[OF m] assms Pair MonitorLoop Poll m show ?thesis
        by (cases retrying) auto
    qed
  next
    case RetryThread
    show ?thesis
    proof (cases e)
      case (Setup r)
      obtain a' started t where s: "retry_setup up r a = (a', started, t)"
        by (cases "retry_setup up r a") auto
      from retry_setup_fields[OF s] assms Pair RetryThread Setup s show ?thesis by simp
    next
      case (Poll p)
      with assms Pair RetryThread show ?thesis by simp
    qed
  next
    case NoThread
    with assms Pair show ?thesis by simp
  qed
qed

lemma worker_run_budget:
  "retry_count (snd w) \<le> max_retries (snd w) \<Longrightarrow>
   retry_count (snd (worker_run up w es)) \<le> max_retries (snd (worker_run up w es))"
  unfolding worker_run_def
  by (induction es arbitrary: w) (simp_all add: worker_step_budget)

lemma exhausted_no_retry:
  assumes "retry_count a = max_retries a"
  shows "fst (worker_step up (MonitorLoop, a) (Poll p)) \<noteq> RetryThread \<and>
         retry_count (snd (worker_step up (MonitorLoop, a) (Poll p))) = retry_count a"
proof -
  obtain a' retrying t where m: "monitor_iteration p a = (a', retrying, t)"
    by (cases "monitor_iteration p a") auto
  from monitor_iteration_budget[OF m] assms m show ?thesis
    by (cases retrying) auto
qed

text \<open>
  C2. In every state a worker reaches from its construction, by any sequence of setup
  outcomes and health checks, \<open>retry_count\<close> is at most \<open>max_retries\<close>. A health
  check of a monitored worker whose \<open>retry_count\<close> equals \<open>max_retries\<close> starts no
  retry thread and leaves \<open>retry_count\<close> as it is.
\<close>

theorem retry_budget_never_exceeded:
  "retry_count (snd (worker_run up (FirstSetup, ChromeProxyAutomation i acc pl) es))
     \<le> max_retries (snd (worker_run up (FirstSetup, ChromeProxyAutomation i acc pl) es)) \<and>
   (retry_count a = max_retries a \<longrightarrow>
      fst (worker_step up (MonitorLoop, a) (Poll p)) \<noteq> RetryThread \<and>
      retry_count (snd (worker_step up (MonitorLoop, a) (Poll p))) = retry_count a)"
proof -
  have "retry_count (snd (FirstSetup, ChromeProxyAutomation i acc pl))
          \<le> max_retries (snd (FirstSetup, ChromeProxyAutomation i acc pl))"
    by (simp add: ChromeProxyAutomation_def)
  then show ?thesis
    using worker_run_budget exhausted_no_retry by blast
qed

theorem retry_budget_never_exceeded_witness:
  "retry_count exhausted_automation = max_retries exhausted_automation \<and>
   fst (worker_step urlparse_example (MonitorLoop, exhausted_automation)
          (Poll (Page (ElementText ''Bad'')))) \<noteq> RetryThread \<and>
   retry_count (snd (worker_step urlparse_example (MonitorLoop, exhausted_automation)
          (Poll (Page (ElementText ''Bad''))))) = 3"
proof -
  have h: "retry_count exhausted_automation = max_retries exhausted_automation"
    by (simp add: exhausted_automation_def automation_a_def ChromeProxyAutomation_def)
  have r: "retry_count exhausted_automation = 3"
    by (simp add: exhausted_automation_def)
  from h r
    retry_budget_never_exceeded[where a = exhausted_automation and up = urlparse_example
      and p = "Page (ElementText ''Bad'')"]
  show ?thesis by simp
qed

lemma worker_step_never_good:
  assumes "never_good w" and "\<not> healthy_event e"
  shows "never_good (worker_step up w e)"
proof (cases w)
  case (Pair c a)
  show ?thesis
  proof (cases c)
    case FirstSetup
    show ?thesis
    proof (cases e)
      case (Setup r)
      obtain ok a' started t where s: "run_account_setup up r a = (ok, a', started, t)"
        by (cases "run_account_setup up r a") auto
      from run_account_setup_fields[OF s] assms Pair FirstSetup Setup s show ?thesis
        by (simp add: never_good_def)
    next
      case (Poll p)
      with assms Pair FirstSetup show ?thesis by simp
    qed
  next
    case MonitorLoop
    show ?thesis
    proof (cases e)
      case (Setup r)
      with assms Pair MonitorLoop show ?thesis by simp
    next
      case (Poll p)
      obtain a' retrying t where m: "monitor_iteration p a = (a', retrying, t)"
        by (cases "monitor_iteration p a") auto
      from assms(2) Poll have u: "\<not> healthy_event (Poll p)" by simp
      from monitor_iteration_budget[OF m] monitor_iteration_unhealthy[OF m u]
        assms Pair MonitorLoop Poll m show ?thesis
        by (cases retrying) (auto simp: never_good_def)
    qed
  next
    case RetryThread
    with assms Pair show ?thesis by (simp add: never_good_def)
  next
    case NoThread
    with assms Pair show ?thesis by simp
  qed
qed

lemma worker_run_never_good:
  "never_good w \<Longrightarrow> \<forall>e \<in> set es. \<not> healthy_event e \<Longrightarrow> never_good (worker_run up w es)"
  unfolding worker_run_def
  by (induction es arbitrary: w) (simp_all add: worker_step_never_good)

text \<open>
  C4. A worker none of whose health checks is classified as good never retries, however
  many bad checks follow one another: \<open>retry_count\<close> stays 0, no retry thread is
  started, and \<open>was_good_before\<close> stays false.
\<close>

theorem never_healthy_never_retries:
  assumes "\<forall>e \<in> set es. \<not> healthy_event e"
  shows "retry_count (snd (worker_run up (FirstSetup, ChromeProxyAutomation i acc pl) es)) = 0 \<and>
         fst (worker_run up (FirstSetup, ChromeProxyAutomation i acc pl) es) \<noteq> RetryThread \<and>
         \<not> was_good_before (snd (worker_run up (FirstSetup, ChromeProxyAutomation i acc pl) es))"
proof -
  have "never_good (FirstSetup, ChromeProxyAutomation i acc pl)"
    by (simp add: never_good_def ChromeProxyAutomation_def)
  from worker_run_never_good[OF this assms] show ?thesis
    by (simp add: never_good_def)
qed

theorem never_healthy_never_retries_witness:
  "filter healthy_event never_healthy_events = [] \<and>
   retry_count (snd (worker_run urlparse_example (FirstSetup, automation_a) never_healthy_events)) = 0 \<and>
   fst (worker_run urlparse_example (FirstSetup, automation_a) never_healthy_events) \<noteq> RetryThread \<and>
   consecutive_disconnects
     (snd (worker_run urlparse_example (FirstSetup, automation_a) never_healthy_events)) = 4"
proof -
  have m: "consecutive_disconnects
     (snd (worker_run urlparse_example (FirstSetup, automation_a) never_healthy_events)) = 4"
    by code_simp
  have h: "\<forall>e \<in> set never_healthy_events. \<not> healthy_event e"
    by (simp add: never_healthy_events_def healthy_event_def is_good_def lower_def
          get_extension_health_def)
  then have f: "filter healthy_event never_healthy_events = []"
    by (simp add: filter_empty_conv)
  from f m never_healthy_never_retries[OF h, of urlparse_example 1 "Some account_a"
      "Some ''http://u1:pw1@h1:1000''"]
  show ?thesis by (simp add: automation_a_def)
qed


subsection \<open>The setup pipeline\<close>

lemma calls_append: "calls (s @ t) = calls s @ calls t"
  by (induction s rule: calls.induct) simp_all

lemma stage1_calls:
  "fst (stage1 up a) \<Longrightarrow> calls (snd (snd (stage1 up a))) = [ParseProxyData]"
  "\<not> fst (stage1 up a) \<Longrightarrow> set (calls (snd (snd (stage1 up a)))) \<subseteq> {ParseProxyData}"
  by (auto simp: stage1_def split: option.splits if_splits)

lemma stages_4_to_6_result:
  "fst (stages_4_to_6 r a) = setup_gradient_extension_ret r"
  "calls (snd (snd (stages_4_to_6 r a))) = [SetupProxy, ConnectToProxy, SetupGradientExtension]"
  "(Out (PrintWarning ''Failed to setup proxy, continuing without proxy'') \<in> set (snd (snd (stages_4_to_6 r a)))) = (\<not> setup_proxy_ret r)"
  "(Out (PrintWarning ''Failed to connect to proxy, continuing without connection'') \<in> set (snd (snd (stages_4_to_6 r a)))) = (\<not> connect_to_proxy_ret r)"
  by (simp_all add: stages_4_to_6_def Let_def)

lemma stage1_no_warning:
  "Out (PrintWarning m) \<notin> set (snd (snd (stage1 up a)))"
  by (auto simp: stage1_def split: option.splits if_splits)

lemma internal_fail1:
  "\<not> fst (stage1 up a) \<Longrightarrow> run_account_setup_internal up r a = stage1 up a"
  by (cases "stage1 up a") (auto simp: run_account_setup_internal_def)

lemma internal_fail2:
  "fst (stage1 up a) \<Longrightarrow> \<not> create_temp_profile_ret r \<Longrightarrow>
   run_account_setup_internal up r a =
     (False, fst (snd (stage1 up a)),
      snd (snd (stage1 up a)) @
        [Out (PrintStep 2), Call CreateTempProfile, Out (PrintError ''Failed to create temporary profile'')])"
  by (cases "stage1 up a") (auto simp: run_account_setup_internal_def)

lemma internal_fail3:
  "fst (stage1 up a) \<Longrightarrow> create_temp_profile_ret r \<Longrightarrow> \<not> start_chrome_ret r \<Longrightarrow>
   run_account_setup_internal up r a =
     (False, (fst (snd (stage1 up a)))\<lparr>temp_profile_path := True\<rparr>,
      snd (snd (stage1 up a)) @
        [Out (PrintStep 2), Call CreateTempProfile, Out (PrintSuccess ''Temporary profile created''),
         Out (PrintStep 3), Call StartChrome, Out (PrintError ''Failed to start Chrome'')])"
  by (cases "stage1 up a") (auto simp: run_account_setup_internal_def Let_def)

lemma internal_reach4:
  "fst (stage1 up a) \<Longrightarrow> create_temp_profile_ret r \<Longrightarrow> start_chrome_ret r \<Longrightarrow>
   run_account_setup_internal up r a =
     (fst (stages_4_to_6 r ((fst (snd (stage1 up a)))\<lparr>temp_profile_path := True, driver := True\<rparr>)),
      fst (snd (stages_4_to_6 r ((fst (snd (stage1 up a)))\<lparr>temp_profile_path := True, driver := True\<rparr>))),
      snd (snd (stage1 up a)) @
        [Out (PrintStep 2), Call CreateTempProfile, Out (PrintSuccess ''Temporary profile created''),
         Out (PrintStep 3), Call StartChrome, Out (PrintSuccess ''Chrome browser started in headless mode'')] @
      snd (snd (stages_4_to_6 r ((fst (snd (stage1 up a)))\<lparr>temp_profile_path := True, driver := True\<rparr>))))"
  by (cases "stage1 up a") (auto simp: run_account_setup_internal_def Let_def split: prod.splits)

lemma internal_result:
  "fst (run_account_setup_internal up r a) =
     (fst (stage1 up a) \<and> create_temp_profile_ret r \<and> start_chrome_ret r \<and> setup_gradient_extension_ret r)"
proof (cases "fst (stage1 up a)")
  case False
  then show ?thesis by (simp add: internal_fail1)
next
  case s1: True
  show ?thesis
  proof (cases "create_temp_profile_ret r")
    case False
    with s1 show ?thesis by (simp add: internal_fail2)
  next
    case s2: True
    show ?thesis
    proof (cases "start_chrome_ret r")
      case False
      with s1 s2 show ?thesis by (simp add: internal_fail3)
    next
      case True
      with s1 s2 show ?thesis by (simp add: internal_reach4 stages_4_to_6_result)
    qed
  qed
qed

lemma stage1_result:
  "fst (stage1 up a) =
     (\<exists>pl. proxy_line a = Some pl \<and> pl \<noteq> [] \<and> parse_proxy_data up pl \<noteq> None)"
  by (auto simp: stage1_def truthy_str_def split: option.splits)

lemma parse_proxy_data_result:
  "(parse_proxy_data up pl \<noteq> None) =
     (\<exists>h p. up pl = ParseResult h p \<and> p \<noteq> PortRaises)"
  by (auto simp: parse_proxy_data_def split: parse_result.splits port_attr.splits)

text \<open>
  C5. The stage methods are called in the order of the pipeline, as a prefix of it. The
  setup succeeds exactly when stages 1, 2, 3 and 6 succeed; stage 1 succeeds exactly when
  the worker has a proxy line that is not empty and that \<open>parse_proxy_data\<close> parses,
  which is when neither \<open>urlparse\<close> nor the reading of the port raises. When stage 1 fails no later
  stage is called; when stage 2 fails the calls end with it; when stage 3 fails the calls
  end with it. When stages 1 to 3 succeed all six stages are called, whatever stages 4 and
  5 return, and a failure of stage 4 or of stage 5 prints its warning.
\<close>

theorem setup_pipeline_stages:
  "(\<exists>n. calls (snd (snd (run_account_setup_internal up r a))) = take n pipeline_order) \<and>
   fst (run_account_setup_internal up r a) =
     (fst (stage1 up a) \<and> create_temp_profile_ret r \<and> start_chrome_ret r \<and> setup_gradient_extension_ret r) \<and>
   (\<not> fst (stage1 up a) \<longrightarrow>
      set (calls (snd (snd (run_account_setup_internal up r a)))) \<subseteq> {ParseProxyData}) \<and>
   (fst (stage1 up a) \<and> \<not> create_temp_profile_ret r \<longrightarrow>
      calls (snd (snd (run_account_setup_internal up r a))) = [ParseProxyData, CreateTempProfile]) \<and>
   (fst (stage1 up a) \<and> create_temp_profile_ret r \<and> \<not> start_chrome_ret r \<longrightarrow>
      calls (snd (snd (run_account_setup_internal up r a))) = [ParseProxyData, CreateTempProfile, StartChrome]) \<and>
   (fst (stage1 up a) \<and> create_temp_profile_ret r \<and> start_chrome_ret r \<longrightarrow>
      calls (snd (snd (run_account_setup_internal up r a))) = pipeline_order \<and>
      (\<not> setup_proxy_ret r \<longrightarrow>
         Out (PrintWarning ''Failed to setup proxy, continuing without proxy'')
           \<in> set (snd (snd (run_account_setup_internal up r a)))) \<and>
      (\<not> connect_to_proxy_ret r \<longrightarrow>
         Out (PrintWarning ''Failed to connect to proxy, continuing without connection'')
           \<in> set (snd (snd (run_account_setup_internal up r a))))) \<and>
   fst (stage1 up a) =
     (\<exists>pl. proxy_line a = Some pl \<and> pl \<noteq> [] \<and> parse_proxy_data up pl \<noteq> None) \<and>
   (parse_proxy_data up line \<noteq> None) = (\<exists>h p. up line = ParseResult h p \<and> p \<noteq> PortRaises)"
proof -
  let ?t = "snd (snd (run_account_setup_internal up r a))"
  have f1: "\<not> fst (stage1 up a) \<Longrightarrow> set (calls ?t) \<subseteq> {ParseProxyData}"
    using stage1_calls(2)[of up a] by (simp add: internal_fail1)
  have f2: "fst (stage1 up a) \<Longrightarrow> \<not> create_temp_profile_ret r \<Longrightarrow>
      calls ?t = [ParseProxyData, CreateTempProfile]"
    by (simp add: internal_fail2 calls_append stage1_calls(1))
  have f3: "fst (stage1 up a) \<Longrightarrow> create_temp_profile_ret r \<Longrightarrow> \<not> start_chrome_ret r \<Longrightarrow>
      calls ?t = [ParseProxyData, CreateTempProfile, StartChrome]"
    by (simp add: internal_fail3 calls_append stage1_calls(1))
  have f4: "fst (stage1 up a) \<Longrightarrow> create_temp_profile_ret r \<Longrightarrow> start_chrome_ret r \<Longrightarrow>
      calls ?t = pipeline_order"
    by (simp add: internal_reach4 calls_append stage1_calls(1) stages_4_to_6_result pipeline_order_def)
  have w4: "fst (stage1 up a) \<Longrightarrow> create_temp_profile_ret r \<Longrightarrow> start_chrome_ret r \<Longrightarrow>
      \<not> setup_proxy_ret r \<Longrightarrow>
      Out (PrintWarning ''Failed to setup proxy, continuing without proxy'') \<in> set ?t"
    by (simp add: internal_reach4 stages_4_to_6_result)
  have w5: "fst (stage1 up a) \<Longrightarrow> create_temp_profile_ret r \<Longrightarrow> start_chrome_ret r \<Longrightarrow>
      \<not> connect_to_proxy_ret r \<Longrightarrow>
      Out (PrintWarning ''Failed to connect to proxy, continuing without connection'') \<in> set ?t"
    by (simp add: internal_reach4 stages_4_to_6_result)
  have pre: "\<exists>n. calls ?t = take n pipeline_order"
  proof (cases "fst (stage1 up a)")
    case False
    from f1[OF False] have "calls ?t = [] \<or> calls ?t = [ParseProxyData]"
      using False by (auto simp: internal_fail1 stage1_def split: option.splits if_splits)
    then have "calls ?t = take 0 pipeline_order \<or> calls ?t = take 1 pipeline_order"
      by (simp add: pipeline_order_def)
    then show ?thesis by blast
  next
    case s1: True
    show ?thesis
    proof (cases "create_temp_profile_ret r")
      case False
      from f2[OF s1 False] have "calls ?t = take 2 pipeline_order"
        by (simp add: pipeline_order_def numeral_2_eq_2)
      then show ?thesis by blast
    next
      case s2: True
      show ?thesis
      proof (cases "start_chrome_ret r")
        case False
        from f3[OF s1 s2 False] have "calls ?t = take 3 pipeline_order"
          by (simp add: pipeline_order_def numeral_3_eq_3)
        then show ?thesis by blast
      next
        case True
        from f4[OF s1 s2 True] have "calls ?t = take 6 pipeline_order"
          by (simp add: pipeline_order_def)
        then show ?thesis by blast
      qed
    qed
  qed
  from pre internal_result[of up r a] f1 f2 f3 f4 w4 w5
  have main: "(\<exists>n. calls ?t = take n pipeline_order) \<and>
     fst (run_account_setup_internal up r a) =
       (fst (stage1 up a) \<and> create_temp_profile_ret r \<and> start_chrome_ret r \<and>
        setup_gradient_extension_ret r) \<and>
     (\<not> fst (stage1 up a) \<longrightarrow> set (calls ?t) \<subseteq> {ParseProxyData}) \<and>
     (fst (stage1 up a) \<and> \<not> create_temp_profile_ret r \<longrightarrow>
        calls ?t = [ParseProxyData, CreateTempProfile]) \<and>
     (fst (stage1 up a) \<and> create_temp_profile_ret r \<and> \<not> start_chrome_ret r \<longrightarrow>
        calls ?t = [ParseProxyData, CreateTempProfile, StartChrome]) \<and>
     (fst (stage1 up a) \<and> create_temp_profile_ret r \<and> start_chrome_ret r \<longrightarrow>
        calls ?t = pipeline_order \<and>
        (\<not> setup_proxy_ret r \<longrightarrow>
           Out (PrintWarning ''Failed to setup proxy, continuing without proxy'') \<in> set ?t) \<and>
        (\<not> connect_to_proxy_ret r \<longrightarrow>
           Out (PrintWarning ''Failed to connect to proxy, continuing without connection'')
             \<in> set ?t))"
    by blast
  from main stage1_result[of up a] parse_proxy_data_result[of up line]
  show ?thesis by (intro conjI) (elim conjE, assumption)+
qed

lemma stage1_automation_a: "fst (stage1 urlparse_example automation_a)"
  by (simp add: stage1_def automation_a_def ChromeProxyAutomation_def truthy_str_def
        parse_proxy_data_def urlparse_example_def)

theorem setup_pipeline_stages_witness:
  "fst (stage1 urlparse_example automation_a) \<and>
   fst (run_account_setup_internal urlparse_example best_effort_fail automation_a) \<and>
   calls (snd (snd (run_account_setup_internal urlparse_example best_effort_fail automation_a)))
     = pipeline_order \<and>
   Out (PrintWarning ''Failed to setup proxy, continuing without proxy'')
     \<in> set (snd (snd (run_account_setup_internal urlparse_example best_effort_fail automation_a))) \<and>
   Out (PrintWarning ''Failed to connect to proxy, continuing without connection'')
     \<in> set (snd (snd (run_account_setup_internal urlparse_example best_effort_fail automation_a))) \<and>
   \<not> fst (run_account_setup_internal urlparse_example chrome_fails automation_a) \<and>
   calls (snd (snd (run_account_setup_internal urlparse_example chrome_fails automation_a)))
     = [ParseProxyData, CreateTempProfile, StartChrome] \<and>
   \<not> fst (stage1 urlparse_example automation_bad_port) \<and>
   \<not> fst (run_account_setup_internal urlparse_example all_ok automation_bad_port) \<and>
   set (calls (snd (snd (run_account_setup_internal urlparse_example all_ok automation_bad_port))))
     \<subseteq> {ParseProxyData}"
proof -
  have p: "\<not> fst (stage1 urlparse_example automation_bad_port)"
    by (simp add: stage1_def automation_bad_port_def ChromeProxyAutomation_def truthy_str_def
          parse_proxy_data_def urlparse_example_def)
  have b: "create_temp_profile_ret best_effort_fail" "start_chrome_ret best_effort_fail"
    "\<not> setup_proxy_ret best_effort_fail" "\<not> connect_to_proxy_ret best_effort_fail"
    "setup_gradient_extension_ret best_effort_fail"
    by (simp_all add: best_effort_fail_def all_ok_def)
  have c: "create_temp_profile_ret chrome_fails" "\<not> start_chrome_ret chrome_fails"
    by (simp_all add: chrome_fails_def all_ok_def)
  from stage1_automation_a b
    setup_pipeline_stages[where up = urlparse_example and r = best_effort_fail
      and a = automation_a and line = "[]"]
  have r1: "fst (run_account_setup_internal urlparse_example best_effort_fail automation_a) \<and>
     calls (snd (snd (run_account_setup_internal urlparse_example best_effort_fail automation_a)))
       = pipeline_order \<and>
     Out (PrintWarning ''Failed to setup proxy, continuing without proxy'')
       \<in> set (snd (snd (run_account_setup_internal urlparse_example best_effort_fail automation_a))) \<and>
     Out (PrintWarning ''Failed to connect to proxy, continuing without connection'')
       \<in> set (snd (snd (run_account_setup_internal urlparse_example best_effort_fail automation_a)))"
    by blast
  from stage1_automation_a c
    setup_pipeline_stages[where up = urlparse_example and r = chrome_fails
      and a = automation_a and line = "[]"]
  have r2: "\<not> fst (run_account_setup_internal urlparse_example chrome_fails automation_a) \<and>
     calls (snd (snd (run_account_setup_internal urlparse_example chrome_fails automation_a)))
       = [ParseProxyData, CreateTempProfile, StartChrome]"
    by blast
  from p
    setup_pipeline_stages[where up = urlparse_example and r = all_ok
      and a = automation_bad_port and line = "[]"]
  have r3: "\<not> fst (run_account_setup_internal urlparse_example all_ok automation_bad_port) \<and>
     set (calls (snd (snd (run_account_setup_internal urlparse_example all_ok automation_bad_port))))
       \<subseteq> {ParseProxyData}"
    by blast
  from stage1_automation_a p r1 r2 r3 show ?thesis by blast
qed

subsection \<open>A first setup that fails\<close>

lemma stage1_setup_complete: "setup_complete (fst (snd (stage1 up a))) = setup_complete a"
  by (auto simp: stage1_def split: option.splits if_splits)

lemma stages_4_to_6_failed:
  "\<not> setup_gradient_extension_ret r \<Longrightarrow> fst (snd (stages_4_to_6 r a)) = a"
  by (simp add: stages_4_to_6_def Let_def)

lemma internal_failed_setup_complete:
  assumes "\<not> fst (run_account_setup_internal up r a)"
  shows "setup_complete (fst (snd (run_account_setup_internal up r a))) = setup_complete a"
proof (cases "fst (stage1 up a)")
  case False
  then show ?thesis by (simp add: internal_fail1 stage1_setup_complete)
next
  case s1: True
  show ?thesis
  proof (cases "create_temp_profile_ret r")
    case False
    with s1 show ?thesis by (simp add: internal_fail2 stage1_setup_complete)
  next
    case s2: True
    show ?thesis
    proof (cases "start_chrome_ret r")
      case False
      with s1 s2 show ?thesis by (simp add: internal_fail3 stage1_setup_complete)
    next
      case True
      with s1 s2 assms have "\<not> setup_gradient_extension_ret r"
        by (simp add: internal_result)
      with s1 s2 True show ?thesis
        by (simp add: internal_reach4 stages_4_to_6_failed stage1_setup_complete)
    qed
  qed
qed

lemma run_account_setup_failed:
  assumes "\<not> fst (run_account_setup_internal up r a)"
  shows "run_account_setup up r a = (ok, a', started, t) \<Longrightarrow>
         \<not> ok \<and> \<not> started \<and> setup_complete a' = setup_complete a \<and>
         retry_count a' = retry_count a \<and>
         health_monitoring_active a' = health_monitoring_active a"
proof -
  assume s: "run_account_setup up r a = (ok, a', started, t)"
  from run_account_setup_fields[OF s] assms
  have f: "\<not> ok" "\<not> started" "retry_count a' = retry_count a"
    "health_monitoring_active a' = health_monitoring_active a"
    by simp_all
  have "setup_complete a' = setup_complete a"
  proof (cases "gradient_data a")
    case None
    with s show ?thesis by (simp add: run_account_setup_def)
  next
    case (Some acc)
    obtain ok' a'' t' where i: "run_account_setup_internal up r a = (ok', a'', t')"
      by (cases "run_account_setup_internal up r a") auto
    with assms have "\<not> ok'" by simp
    with Some s i have "a' = a''" by (simp add: run_account_setup_def)
    with internal_failed_setup_complete[OF assms] i show ?thesis by simp
  qed
  with f show ?thesis by simp
qed

lemma worker_run_no_thread: "worker_run up (NoThread, a) es = (NoThread, a)"
  unfolding worker_run_def
proof (induction es)
  case Nil
  show ?case by simp
next
  case (Cons e es)
  have "worker_step up (NoThread, a) e = (NoThread, a)" by (cases e) simp_all
  with Cons show ?case by simp
qed

text \<open>
  C8. When a mandatory stage of the first setup of a new worker fails, the setup returns
  \<open>False\<close> and does not start the monitoring thread; whatever events follow, the worker
  has no thread, monitoring is not active, the setup is not complete, and
  \<open>retry_count\<close> is 0.
\<close>

theorem failed_first_setup:
  assumes "\<not> fst (stage1 up (ChromeProxyAutomation i acc pl)) \<or> \<not> create_temp_profile_ret r \<or>
           \<not> start_chrome_ret r \<or> \<not> setup_gradient_extension_ret r"
  shows "\<not> fst (run_account_setup up r (ChromeProxyAutomation i acc pl)) \<and>
         \<not> fst (snd (snd (run_account_setup up r (ChromeProxyAutomation i acc pl)))) \<and>
         fst (worker_run up (FirstSetup, ChromeProxyAutomation i acc pl) (Setup r # es)) = NoThread \<and>
         \<not> health_monitoring_active
             (snd (worker_run up (FirstSetup, ChromeProxyAutomation i acc pl) (Setup r # es))) \<and>
         \<not> setup_complete
             (snd (worker_run up (FirstSetup, ChromeProxyAutomation i acc pl) (Setup r # es))) \<and>
         retry_count (snd (worker_run up (FirstSetup, ChromeProxyAutomation i acc pl) (Setup r # es))) = 0"
proof -
  let ?A = "ChromeProxyAutomation i acc pl"
  from assms have n: "\<not> fst (run_account_setup_internal up r ?A)"
    by (simp add: internal_result)
  obtain ok a' started t where s: "run_account_setup up r ?A = (ok, a', started, t)"
    by (cases "run_account_setup up r ?A") auto
  note f = run_account_setup_failed[OF n s]
  from s f have "worker_step up (FirstSetup, ?A) (Setup r) = (NoThread, a')" by simp
  then have w: "worker_run up (FirstSetup, ?A) (Setup r # es) = (NoThread, a')"
    using worker_run_no_thread[of up a' es] by (simp add: worker_run_def)
  from f have "\<not> health_monitoring_active a'" "\<not> setup_complete a'" "retry_count a' = 0"
    by (simp_all add: ChromeProxyAutomation_def)
  with s f w show ?thesis by simp
qed

theorem failed_first_setup_witness:
  "\<not> setup_gradient_extension_ret auth_fails \<and>
   fst (worker_run urlparse_example (FirstSetup, automation_a)
          [Setup auth_fails, Poll (Page (ElementText ''Good''))]) = NoThread \<and>
   retry_count (snd (worker_run urlparse_example (FirstSetup, automation_a)
          [Setup auth_fails, Poll (Page (ElementText ''Good''))])) = 0"
proof -
  have h: "\<not> setup_gradient_extension_ret auth_fails"
    by (simp add: auth_fails_def all_ok_def)
  then have "\<not> fst (stage1 urlparse_example
                (ChromeProxyAutomation 1 (Some account_a) (Some ''http://u1:pw1@h1:1000''))) \<or>
             \<not> create_temp_profile_ret auth_fails \<or> \<not> start_chrome_ret auth_fails \<or>
             \<not> setup_gradient_extension_ret auth_fails"
    by simp
  from h failed_first_setup[OF this, of "[Poll (Page (ElementText ''Good''))]"]
  show ?thesis by (simp add: automation_a_def)
qed

subsection \<open>The proxy file\<close>

lemma proxies_body_blank: "strip raw = [] \<Longrightarrow> proxies_body up raw st = st"
  by (simp add: proxies_body_def truthy_str_def)

lemma proxies_body_accepted:
  "strip raw \<noteq> [] \<Longrightarrow> accepted up (strip raw) \<Longrightarrow>
   proxies_body up raw st = (fst st @ [strip raw], snd st @ [LogDebug ''Parsed proxy''])"
  by (auto simp: proxies_body_def truthy_str_def accepted_def hostname_and_port_def
        truthy_hostname_def Let_def split: parse_result.splits option.splits port_attr.splits)

lemma proxies_body_rejected:
  "strip raw \<noteq> [] \<Longrightarrow> \<not> accepted up (strip raw) \<Longrightarrow>
   fst (proxies_body up raw st) = fst st \<and>
   (\<exists>m. snd (proxies_body up raw st) = snd st @ [LogWarning m])"
  by (auto simp: proxies_body_def truthy_str_def accepted_def hostname_and_port_def
        truthy_hostname_def Let_def split: parse_result.splits option.splits port_attr.splits)

lemma proxies_body_fst:
  "fst (proxies_body up raw st) =
     fst st @ (if strip raw \<noteq> [] \<and> accepted up (strip raw) then [strip raw] else [])"
  using proxies_body_blank[of raw up st] proxies_body_accepted[of raw up st]
    proxies_body_rejected[of raw up st]
  by (cases "strip raw = []"; cases "accepted up (strip raw)") simp_all

lemma proxies_loop_fst:
  "fst (proxies_loop up ls st) =
     fst st @ filter (\<lambda>l. l \<noteq> [] \<and> accepted up l) (map strip ls)"
  by (induction ls arbitrary: st) (simp_all add: proxies_body_fst)

lemma parse_all_proxies_fst:
  "fst (parse_all_proxies up (Some ls)) = filter (\<lambda>l. l \<noteq> [] \<and> accepted up l) (map strip ls)"
proof (cases "proxies_loop up ls ([], [LogDebug ''Reading proxy file''])")
  case (Pair proxies out)
  with proxies_loop_fst[of up ls "([], [LogDebug ''Reading proxy file''])"]
  show ?thesis by (simp add: parse_all_proxies_def)
qed

text \<open>
  C9 (as amended). A blank line of the proxy file changes nothing. A line that is not
  blank and does not pass the validation (no hostname, no port, port 0, or an error raised
  by the parsing) adds no proxy and logs one warning. A line that is not blank and passes
  the validation, with a hostname and a port other than 0, is appended, stripped. The
  proxies of a file are its stripped lines that are not blank and pass the validation, in
  the order of the file: a rejected line does not end the parsing.
\<close>

theorem proxy_lines:
  "(strip raw = [] \<longrightarrow> proxies_body up raw st = st) \<and>
   (strip raw \<noteq> [] \<and> \<not> accepted up (strip raw) \<longrightarrow>
      fst (proxies_body up raw st) = fst st \<and>
      (\<exists>m. snd (proxies_body up raw st) = snd st @ [LogWarning m])) \<and>
   (strip raw \<noteq> [] \<and> accepted up (strip raw) \<longrightarrow>
      proxies_body up raw st = (fst st @ [strip raw], snd st @ [LogDebug ''Parsed proxy''])) \<and>
   fst (parse_all_proxies up (Some ls)) = filter (\<lambda>l. l \<noteq> [] \<and> accepted up l) (map strip ls)"
  using proxies_body_blank proxies_body_accepted proxies_body_rejected parse_all_proxies_fst
  by blast

theorem proxy_lines_witness:
  "proxies_body urlparse_example '' http://u1:pw1@h1:1000 '' ([], []) =
     ([''http://u1:pw1@h1:1000''], [LogDebug ''Parsed proxy'']) \<and>
   proxies_body urlparse_example ''  '' ([], []) = ([], []) \<and>
   fst (proxies_body urlparse_example ''junk'' ([], [])) = []"
proof -
  have s1: "strip '' http://u1:pw1@h1:1000 '' = ''http://u1:pw1@h1:1000''"
    by (simp add: strip_def isspace_def)
  have a1: "accepted urlparse_example ''http://u1:pw1@h1:1000''"
    by (simp add: accepted_def urlparse_example_def)
  have s2: "strip ''  '' = []"
    by (simp add: strip_def isspace_def)
  have s3: "strip ''junk'' = ''junk''"
    by (simp add: strip_def isspace_def)
  have a3: "\<not> accepted urlparse_example ''junk''"
    by (simp add: accepted_def urlparse_example_def)
  from s1 a1 s2 s3 a3
    proxy_lines[of "'' http://u1:pw1@h1:1000 ''" urlparse_example "([], [])"]
    proxy_lines[of "''  ''" urlparse_example "([], [])"]
    proxy_lines[of "''junk''" urlparse_example "([], [])"]
  show ?thesis by simp
qed

text \<open>
  The line \<open>http://h:0\<close> has the hostname \<open>h\<close> and the port 0, and is not accepted: the
  file that holds it gives no proxy and a warning.
\<close>

theorem proxy_lines_counterexample:
  "hostname (urlparse_example ''http://h:0'') = Some ''h'' \<and>
   port (urlparse_example ''http://h:0'') = PortInt 0 \<and>
   parse_all_proxies urlparse_example (Some [''http://h:0'']) =
     ([], [LogDebug ''Reading proxy file'', LogWarning ''Invalid proxy format on line'',
           LogInfo ''Parsed proxies from proxy file''])"
  by code_simp

subsection \<open>The account file\<close>

lemma split1_first: "sep \<notin> set before \<Longrightarrow> split1 sep (before @ sep # after) = [before, after]"
  by (induction before) auto

lemma takeWhile_first:
  "sep \<notin> set before \<Longrightarrow> takeWhile (\<lambda>c. c \<noteq> sep) (before @ sep # after) = before"
  by (induction before) auto

lemma dropWhile_first:
  "sep \<notin> set before \<Longrightarrow> dropWhile (\<lambda>c. c \<noteq> sep) (before @ sep # after) = sep # after"
  by (induction before) auto

lemma account_of_first:
  "CHR '':'' \<notin> set before \<Longrightarrow>
   account_of (before @ CHR '':'' # after) = \<lparr>email = strip before, password = strip after\<rparr>"
  by (simp add: account_of_def takeWhile_first dropWhile_first)

lemma accounts_body_eq:
  "accounts_body raw st =
     Inr (fst st @ (if CHR '':'' \<in> set (strip raw) then [account_of (strip raw)] else []),
          snd st @ account_report (strip raw))"
proof (cases "CHR '':'' \<in> set (strip raw)")
  case True
  then obtain before after where d: "strip raw = before @ CHR '':'' # after" "CHR '':'' \<notin> set before"
    by (meson split_list_first)
  with True account_of_first[OF d(2), of after] show ?thesis
    by (auto simp: accounts_body_def truthy_str_def split1_first account_report_def)
next
  case False
  then show ?thesis
    by (auto simp: accounts_body_def truthy_str_def account_report_def)
qed

lemma accounts_loop_eq:
  "accounts_loop ls st =
     Inr (fst st @ map account_of (filter (\<lambda>l. CHR '':'' \<in> set l) (map strip ls)),
          snd st @ concat (map account_report (map strip ls)))"
  by (induction ls arbitrary: st) (simp_all add: accounts_body_eq)

lemma parse_all_accounts_eq:
  "parse_all_accounts (Some ls) =
     (map account_of (filter (\<lambda>l. CHR '':'' \<in> set l) (map strip ls)),
      [LogDebug ''Reading data file''] @ concat (map account_report (map strip ls)) @
      [LogInfo ''Parsed accounts from data file''])"
  by (simp add: parse_all_accounts_def accounts_loop_eq)

text \<open>
  C10. A stripped account line that holds a colon splits at its first colon. The text
  before the first colon, stripped, is the email, and all the text after it, stripped, is
  the password, colons included. A line that is not blank and holds no colon adds no
  account and logs a warning. The parsing of a file never raises: its accounts are those
  of its stripped lines that hold a colon, in the order of the file, and its reports are
  those of its lines, one after the other, between the first and the last report.
\<close>

theorem account_lines:
  "(CHR '':'' \<in> set (strip raw) \<longrightarrow>
      (\<exists>before after. strip raw = before @ CHR '':'' # after \<and> CHR '':'' \<notin> set before)) \<and>
   (strip raw = before @ CHR '':'' # after \<and> CHR '':'' \<notin> set before \<longrightarrow>
      accounts_body raw (accs, out) =
        Inr (accs @ [\<lparr>email = strip before, password = strip after\<rparr>],
             out @ [LogDebug ''Parsed account''])) \<and>
   (strip raw \<noteq> [] \<and> CHR '':'' \<notin> set (strip raw) \<longrightarrow>
      accounts_body raw (accs, out) = Inr (accs, out @ [LogWarning ''Invalid data format on line''])) \<and>
   (CHR '':'' \<notin> set before \<longrightarrow>
      account_of (before @ CHR '':'' # after) = \<lparr>email = strip before, password = strip after\<rparr>) \<and>
   accounts_loop ls st =
     Inr (fst st @ map account_of (filter (\<lambda>l. CHR '':'' \<in> set l) (map strip ls)),
          snd st @ concat (map account_report (map strip ls))) \<and>
   parse_all_accounts (Some ls) =
     (map account_of (filter (\<lambda>l. CHR '':'' \<in> set l) (map strip ls)),
      [LogDebug ''Reading data file''] @ concat (map account_report (map strip ls)) @
      [LogInfo ''Parsed accounts from data file''])"
proof -
  have a: "CHR '':'' \<in> set (strip raw) \<Longrightarrow>
      \<exists>before after. strip raw = before @ CHR '':'' # after \<and> CHR '':'' \<notin> set before"
    by (rule split_list_first)
  have b: "strip raw = before @ CHR '':'' # after \<Longrightarrow> CHR '':'' \<notin> set before \<Longrightarrow>
      accounts_body raw (accs, out) =
        Inr (accs @ [\<lparr>email = strip before, password = strip after\<rparr>],
             out @ [LogDebug ''Parsed account''])"
    by (simp add: accounts_body_def truthy_str_def split1_first)
  have c: "strip raw \<noteq> [] \<Longrightarrow> CHR '':'' \<notin> set (strip raw) \<Longrightarrow>
      accounts_body raw (accs, out) = Inr (accs, out @ [LogWarning ''Invalid data format on line''])"
    by (simp add: accounts_body_def truthy_str_def)
  from a b c account_of_first[of before after] accounts_loop_eq[of ls st]
    parse_all_accounts_eq[of ls]
  show ?thesis by blast
qed

theorem account_lines_witness:
  "accounts_body '' a@x.com : p:1 '' ([], []) =
     Inr ([\<lparr>email = ''a@x.com'', password = ''p:1''\<rparr>], [LogDebug ''Parsed account'']) \<and>
   accounts_body ''nocolon'' ([], []) = Inr ([], [LogWarning ''Invalid data format on line'']) \<and>
   account_of (''a@x.com '' @ CHR '':'' # '' p:1'') = \<lparr>email = ''a@x.com'', password = ''p:1''\<rparr>"
proof -
  have d: "strip '' a@x.com : p:1 '' = ''a@x.com '' @ CHR '':'' # '' p:1'' \<and>
           CHR '':'' \<notin> set ''a@x.com ''"
    by (simp add: strip_def isspace_def)
  have e: "strip ''a@x.com '' = ''a@x.com''" "strip '' p:1'' = ''p:1''"
    by (simp_all add: strip_def isspace_def)
  have n: "strip ''nocolon'' \<noteq> [] \<and> CHR '':'' \<notin> set (strip ''nocolon'')"
    by (simp add: strip_def isspace_def)
  from d
    account_lines[where raw = "'' a@x.com : p:1 ''" and before = "''a@x.com ''"
      and after = "'' p:1''" and accs = "[]" and out = "[]" and ls = "[]" and st = "([], [])"]
  have r1: "accounts_body '' a@x.com : p:1 '' ([], []) =
       Inr ([] @ [\<lparr>email = strip ''a@x.com '', password = strip '' p:1''\<rparr>],
            [] @ [LogDebug ''Parsed account'']) \<and>
     account_of (''a@x.com '' @ CHR '':'' # '' p:1'') =
       \<lparr>email = strip ''a@x.com '', password = strip '' p:1''\<rparr>"
    by blast
  from n
    account_lines[where raw = "''nocolon''" and before = "[]" and after = "[]"
      and accs = "[]" and out = "[]" and ls = "[]" and st = "([], [])"]
  have r2: "accounts_body ''nocolon'' ([], []) =
       Inr ([], [] @ [LogWarning ''Invalid data format on line''])"
    by blast
  from r1 r2 e show ?thesis by simp
qed

subsection \<open>The fleet\<close>

lemma launch_loop_length: "length (launch_loop ps i accs) = length accs"
  by (induction accs arbitrary: i) simp_all

lemma launch_loop_nth:
  "k < length accs \<Longrightarrow>
   launch_loop ps i accs ! k =
     (ChromeProxyAutomation (int (i + k)) (Some (accs ! k))
        (if i + k - 1 < length ps then Some (ps ! (i + k - 1)) else None),
      int (i + k) - 1)"
proof (induction accs arbitrary: i k)
  case Nil
  then show ?case by simp
next
  case (Cons acc accs)
  show ?case
  proof (cases k)
    case 0
    then show ?thesis by simp
  next
    case (Suc j)
    with Cons.prems have "j < length accs" by simp
    from Cons.IH[OF this, of "Suc i"] Suc show ?thesis by simp
  qed
qed

lemma run_all_accounts_rejected:
  assumes "fst (parse_all_accounts d) = [] \<or> fst (parse_all_proxies up p) = [] \<or>
     length (fst (parse_all_proxies up p)) < length (fst (parse_all_accounts d))"
  shows "launch_returned (run_all_accounts up d p m) = Some False \<and>
     launch_submitted (run_all_accounts up d p m) = [] \<and>
     (\<exists>msg. PrintError msg \<in> set (launch_out (run_all_accounts up d p m)))"
  using assms by (auto simp: run_all_accounts_def Let_def)

lemma run_all_accounts_launched:
  assumes "launch_returned (run_all_accounts up d p m) = None"
  shows "launch_submitted (run_all_accounts up d p m) =
           launch_loop (fst (parse_all_proxies up p)) 1 (fst (parse_all_accounts d)) \<and>
         fst (parse_all_accounts d) \<noteq> [] \<and>
         length (fst (parse_all_accounts d)) \<le> length (fst (parse_all_proxies up p))"
  using assms by (auto simp: run_all_accounts_def Let_def split: if_splits)

lemma scenario_accounts:
  "fst (parse_all_accounts data_two) =
     [\<lparr>email = ''a@x.com'', password = ''p1''\<rparr>, \<lparr>email = ''b@x.com'', password = ''p2''\<rparr>]"
  by code_simp

lemma scenario_one_proxy: "fst (parse_all_proxies urlparse_example proxies_one) = [''http://u1:pw1@h1:1000'']"
  by code_simp

lemma scenario_two_proxies:
  "fst (parse_all_proxies urlparse_example proxies_two) =
     [''http://u1:pw1@h1:1000'', ''http://u2:pw2@h2:2000'']"
  by code_simp

text \<open>
  C3 (as amended). When the parsed account list is empty, or the parsed proxy list is
  empty, or there are fewer proxies than accounts, \<open>run_all_accounts\<close> prints an error,
  submits no worker and returns \<open>False\<close>; the script drops that value and the exit status
  of the process is 0.
\<close>

theorem fleet_preconditions:
  assumes "fst (parse_all_accounts d) = [] \<or> fst (parse_all_proxies up p) = [] \<or>
     length (fst (parse_all_proxies up p)) < length (fst (parse_all_accounts d))"
  shows "launch_returned (run_all_accounts up d p m) = Some False \<and>
     launch_submitted (run_all_accounts up d p m) = [] \<and>
     (\<exists>msg. PrintError msg \<in> set (launch_out (run_all_accounts up d p m))) \<and>
     main_exit_status (launch_returned (run_all_accounts up d p m)) = 0"
  using run_all_accounts_rejected[OF assms] by (simp add: main_exit_status_def)

theorem fleet_preconditions_witness:
  "length (fst (parse_all_proxies urlparse_example proxies_one))
     < length (fst (parse_all_accounts data_two)) \<and>
   launch_returned (run_all_accounts urlparse_example data_two proxies_one MultiAccountManager)
     = Some False \<and>
   launch_submitted (run_all_accounts urlparse_example data_two proxies_one MultiAccountManager) = []"
proof -
  have h: "length (fst (parse_all_proxies urlparse_example proxies_one))
             < length (fst (parse_all_accounts data_two))"
    by (simp add: scenario_accounts scenario_one_proxy)
  then have "fst (parse_all_accounts data_two) = [] \<or>
             fst (parse_all_proxies urlparse_example proxies_one) = [] \<or>
             length (fst (parse_all_proxies urlparse_example proxies_one))
               < length (fst (parse_all_accounts data_two))"
    by simp
  from h fleet_preconditions[OF this, of MultiAccountManager]
  show ?thesis by simp
qed

text \<open>
  One proxy for two accounts: the preconditions fail, the run returns \<open>False\<close>, and the
  exit status is 0, not a status other than 0.
\<close>

theorem fleet_preconditions_counterexample:
  "length (fst (parse_all_proxies urlparse_example proxies_one))
     < length (fst (parse_all_accounts data_two)) \<and>
   launch_returned (run_all_accounts urlparse_example data_two proxies_one MultiAccountManager)
     = Some False \<and>
   \<not> main_exit_status
       (launch_returned (run_all_accounts urlparse_example data_two proxies_one MultiAccountManager))
     \<noteq> 0"
proof -
  have h: "length (fst (parse_all_proxies urlparse_example proxies_one))
             < length (fst (parse_all_accounts data_two))"
    by (simp add: scenario_accounts scenario_one_proxy)
  with run_all_accounts_rejected[of data_two urlparse_example proxies_one MultiAccountManager]
  show ?thesis by (simp add: main_exit_status_def)
qed

lemma run_account_setup_fst:
  "gradient_data a = Some acc \<Longrightarrow>
   fst (run_account_setup up r a) = fst (run_account_setup_internal up r a)"
  by (cases "run_account_setup_internal up r a"; cases "fst (run_account_setup_internal up r a)")
     (auto simp: run_account_setup_def)

lemma setup_account_with_delay_runs:
  "fst (snd (setup_account_with_delay up m r a k)) = fst (run_account_setup up r a) \<and>
   fst (snd (snd (setup_account_with_delay up m r a k))) = fst (snd (run_account_setup up r a)) \<and>
   fst (snd (snd (snd (setup_account_with_delay up m r a k))))
     = fst (snd (snd (run_account_setup up r a))) \<and>
   (\<exists>x. snd (snd (snd (snd (setup_account_with_delay up m r a k)))) =
          snd (snd (snd (run_account_setup up r a))) @ [x])"
  by (cases "run_account_setup up r a"; cases "fst (run_account_setup up r a)")
     (auto simp: setup_account_with_delay_def)

text \<open>
  C7. When the fleet is launched, one call of \<open>setup_account_with_delay\<close> is submitted for
  every account; the call for the account at position \<open>k\<close> (from 0) carries a new
  automation with that account and the proxy of the same position, and the index \<open>k\<close>.
  It sleeps \<open>k * 30\<close>, nothing for the first account and 30 more for each following one,
  and then runs the account setup of that automation: its result, its automation and its
  monitoring thread are those of \<open>run_account_setup\<close>, and its trace is the trace of the
  setup followed by one report. The result of that setup is the result of the pipeline.
\<close>

theorem staggered_launch:
  assumes "launch_returned (run_all_accounts up d p MultiAccountManager) = None"
      and "k < length (fst (parse_all_accounts d))"
  shows "length (launch_submitted (run_all_accounts up d p MultiAccountManager))
           = length (fst (parse_all_accounts d)) \<and>
         snd (launch_submitted (run_all_accounts up d p MultiAccountManager) ! k) = int k \<and>
         gradient_data (fst (launch_submitted (run_all_accounts up d p MultiAccountManager) ! k))
           = Some (fst (parse_all_accounts d) ! k) \<and>
         fst (setup_account_with_delay up' MultiAccountManager r
                (fst (launch_submitted (run_all_accounts up d p MultiAccountManager) ! k))
                (snd (launch_submitted (run_all_accounts up d p MultiAccountManager) ! k)))
           = int k * 30 \<and>
         fst (setup_account_with_delay up' MultiAccountManager r a 0) = 0 \<and>
         fst (setup_account_with_delay up' MultiAccountManager r a' (int (Suc k)))
           - fst (setup_account_with_delay up' MultiAccountManager r a (int k)) = 30 \<and>
         fst (launch_submitted (run_all_accounts up d p MultiAccountManager) ! k)
           = ChromeProxyAutomation (int k + 1) (Some (fst (parse_all_accounts d) ! k))
               (Some (fst (parse_all_proxies up p) ! k)) \<and>
         fst (snd (setup_account_with_delay up' MultiAccountManager r
                (fst (launch_submitted (run_all_accounts up d p MultiAccountManager) ! k))
                (snd (launch_submitted (run_all_accounts up d p MultiAccountManager) ! k))))
           = fst (run_account_setup up' r
                (fst (launch_submitted (run_all_accounts up d p MultiAccountManager) ! k))) \<and>
         fst (snd (snd (setup_account_with_delay up' MultiAccountManager r
                (fst (launch_submitted (run_all_accounts up d p MultiAccountManager) ! k))
                (snd (launch_submitted (run_all_accounts up d p MultiAccountManager) ! k)))))
           = fst (snd (run_account_setup up' r
                (fst (launch_submitted (run_all_accounts up d p MultiAccountManager) ! k)))) \<and>
         fst (snd (snd (snd (setup_account_with_delay up' MultiAccountManager r
                (fst (launch_submitted (run_all_accounts up d p MultiAccountManager) ! k))
                (snd (launch_submitted (run_all_accounts up d p MultiAccountManager) ! k))))))
           = fst (snd (snd (run_account_setup up' r
                (fst (launch_submitted (run_all_accounts up d p MultiAccountManager) ! k))))) \<and>
         (\<exists>x. snd (snd (snd (snd (setup_account_with_delay up' MultiAccountManager r
                (fst (launch_submitted (run_all_accounts up d p MultiAccountManager) ! k))
                (snd (launch_submitted (run_all_accounts up d p MultiAccountManager) ! k))))))
           = snd (snd (snd (run_account_setup up' r
                (fst (launch_submitted (run_all_accounts up d p MultiAccountManager) ! k))))) @ [x]) \<and>
         fst (run_account_setup up' r
                (fst (launch_submitted (run_all_accounts up d p MultiAccountManager) ! k)))
           = fst (run_account_setup_internal up' r
                (fst (launch_submitted (run_all_accounts up d p MultiAccountManager) ! k)))"
proof -
  note l = run_all_accounts_launched[OF assms(1)]
  have d: "\<And>j b. fst (setup_account_with_delay up' MultiAccountManager r b (int j)) = int j * 30"
    by (simp add: setup_account_with_delay_def delay_time_def MultiAccountManager_def)
  from l launch_loop_nth[OF assms(2), of "fst (parse_all_proxies up p)" 1]
  have n: "snd (launch_submitted (run_all_accounts up d p MultiAccountManager) ! k) = int k"
    and g: "gradient_data (fst (launch_submitted (run_all_accounts up d p MultiAccountManager) ! k))
           = Some (fst (parse_all_accounts d) ! k)"
    by (simp_all add: ChromeProxyAutomation_def)
  from l have len: "length (launch_submitted (run_all_accounts up d p MultiAccountManager))
           = length (fst (parse_all_accounts d))"
    by (simp add: launch_loop_length)
  have z: "fst (setup_account_with_delay up' MultiAccountManager r a 0) = 0"
    by (simp add: setup_account_with_delay_def delay_time_def)
  from l assms(2) launch_loop_nth[OF assms(2), of "fst (parse_all_proxies up p)" 1]
  have w: "fst (launch_submitted (run_all_accounts up d p MultiAccountManager) ! k)
           = ChromeProxyAutomation (int k + 1) (Some (fst (parse_all_accounts d) ! k))
               (Some (fst (parse_all_proxies up p) ! k))"
    by (simp add: add.commute)
  from len n g z d[of _ k] d[of a' "Suc k"] d[of a k]
  have main: "length (launch_submitted (run_all_accounts up d p MultiAccountManager))
           = length (fst (parse_all_accounts d)) \<and>
         snd (launch_submitted (run_all_accounts up d p MultiAccountManager) ! k) = int k \<and>
         gradient_data (fst (launch_submitted (run_all_accounts up d p MultiAccountManager) ! k))
           = Some (fst (parse_all_accounts d) ! k) \<and>
         fst (setup_account_with_delay up' MultiAccountManager r
                (fst (launch_submitted (run_all_accounts up d p MultiAccountManager) ! k))
                (snd (launch_submitted (run_all_accounts up d p MultiAccountManager) ! k)))
           = int k * 30 \<and>
         fst (setup_account_with_delay up' MultiAccountManager r a 0) = 0 \<and>
         fst (setup_account_with_delay up' MultiAccountManager r a' (int (Suc k)))
           - fst (setup_account_with_delay up' MultiAccountManager r a (int k)) = 30"
    by simp
  from g have i: "fst (run_account_setup up' r
                (fst (launch_submitted (run_all_accounts up d p MultiAccountManager) ! k)))
           = fst (run_account_setup_internal up' r
                (fst (launch_submitted (run_all_accounts up d p MultiAccountManager) ! k)))"
    by (simp add: run_account_setup_fst)
  from main w i
    setup_account_with_delay_runs[of up' MultiAccountManager r
      "fst (launch_submitted (run_all_accounts up d p MultiAccountManager) ! k)"
      "snd (launch_submitted (run_all_accounts up d p MultiAccountManager) ! k)"]
  show ?thesis by (intro conjI) (elim conjE, assumption)+
qed

theorem staggered_launch_witness:
  "launch_returned (run_all_accounts urlparse_example data_two proxies_two MultiAccountManager) = None \<and>
   (1::nat) < length (fst (parse_all_accounts data_two)) \<and>
   fst (setup_account_with_delay urlparse_example MultiAccountManager all_ok
          (fst (launch_submitted
                  (run_all_accounts urlparse_example data_two proxies_two MultiAccountManager) ! 1))
          (snd (launch_submitted
                  (run_all_accounts urlparse_example data_two proxies_two MultiAccountManager) ! 1)))
     = 30"
proof -
  have h: "launch_returned (run_all_accounts urlparse_example data_two proxies_two MultiAccountManager) = None"
    by (simp add: run_all_accounts_def Let_def scenario_accounts scenario_two_proxies)
  have k: "(1::nat) < length (fst (parse_all_accounts data_two))"
    by (simp add: scenario_accounts)
  from staggered_launch[OF h k, where up' = urlparse_example and r = all_ok
      and a = automation_a and a' = automation_a]
  have "fst (setup_account_with_delay urlparse_example MultiAccountManager all_ok
          (fst (launch_submitted
                  (run_all_accounts urlparse_example data_two proxies_two MultiAccountManager) ! 1))
          (snd (launch_submitted
                  (run_all_accounts urlparse_example data_two proxies_two MultiAccountManager) ! 1)))
     = int 1 * 30"
    by blast
  with h k show ?thesis by simp
qed
end
